theory Spec2Isabelle
  imports Complex_Main "HOL-Library.Word" "HOL-Library.AList" "HOL-Library.Log_Nat"
begin

section \<open>miditools: the data the MIDI code works on\<close>

text \<open>
  JavaScript numbers that carry times (milliseconds), MIDI bytes and pitch numbers are
  integers that a double holds exactly, and are modelled as \<open>int\<close>; tempi and quarter
  lengths, which the quantizer divides, are IEEE 754 doubles (\<open>double\<close>, below).
  \<open>undefined\<close> is \<open>None\<close>.
\<close>

datatype error = TypeError | RangeError | Thrown string

subsection \<open>JavaScript numbers\<close>

text \<open>
  A double is a finite value (\<open>Fin 0\<close> is the positive zero), the negative zero, an
  infinity or NaN. The finite doubles are the rationals \<open>m * 2 ^ q\<close> with \<open>\<bar>m\<bar> < 2 ^ 53\<close>
  and \<open>- 1074 \<le> q \<le> 971\<close>; every operation below yields such a value from such values.
\<close>

datatype double = Fin rat | MinusZero | PlusInf | MinusInf | NaN

text \<open>\<open>ilog2 a\<close> is the integer \<open>e\<close> with \<open>2 ^ e \<le> a < 2 ^ (e + 1)\<close>, for \<open>a > 0\<close>.\<close>

definition ilog2 :: "rat \<Rightarrow> int" where
  "ilog2 a = (if 1 \<le> a then bitlen \<lfloor>a\<rfloor> - 1 else - bitlen (\<lceil>1 / a\<rceil> - 1))"

definition roundHalfEven :: "rat \<Rightarrow> int" where
  "roundHalfEven y =
     (let f = \<lfloor>y\<rfloor>; d = y - of_int f
      in if d < 1 / 2 then f else if 1 / 2 < d then f + 1 else if even f then f else f + 1)"

definition overflowThreshold :: rat where
  "overflowThreshold = 2 powi 1024"

text \<open>
  The double nearest to a rational, a tie going to the even significand: 53 significant
  bits, from exponent -1022 downwards a fixed step of \<open>2 ^ - 1074\<close> (subnormal numbers),
  an infinity when the rounded magnitude reaches \<open>2 ^ 1024\<close>, a zero with the sign of the
  rational when it rounds to nothing.
\<close>

definition toDouble :: "rat \<Rightarrow> double" where
  "toDouble x =
     (if x = 0 then Fin 0
      else
        (let a = \<bar>x\<bar>;
             q = max (ilog2 a) (- 1022) - 52;
             m = roundHalfEven (a / 2 powi q);
             v = of_int m * 2 powi q
         in if overflowThreshold \<le> v then (if x < 0 then MinusInf else PlusInf)
            else if m = 0 then (if x < 0 then MinusZero else Fin 0)
            else Fin (if x < 0 then - v else v)))"

fun negative :: "double \<Rightarrow> bool" where
  "negative (Fin r) = (r < 0)"
| "negative MinusZero = True"
| "negative PlusInf = False"
| "negative MinusInf = True"
| "negative NaN = False"

definition isInf :: "double \<Rightarrow> bool" where
  "isInf d = (d = PlusInf \<or> d = MinusInf)"

definition isZero :: "double \<Rightarrow> bool" where
  "isZero d = (d = Fin 0 \<or> d = MinusZero)"

definition signedInf :: "bool \<Rightarrow> double" where
  "signedInf neg = (if neg then MinusInf else PlusInf)"

definition signedZero :: "bool \<Rightarrow> double" where
  "signedZero neg = (if neg then MinusZero else Fin 0)"

fun finiteValue :: "double \<Rightarrow> rat" where
  "finiteValue (Fin r) = r"
| "finiteValue d = 0"

text \<open>\<open>a / b\<close> and \<open>a * b\<close> on doubles.\<close>

definition fdiv :: "double \<Rightarrow> double \<Rightarrow> double" where
  "fdiv a b =
     (if a = NaN \<or> b = NaN then NaN
      else if isInf a then (if isInf b then NaN else signedInf (negative a \<noteq> negative b))
      else if isInf b then signedZero (negative a \<noteq> negative b)
      else if isZero b then (if isZero a then NaN else signedInf (negative a \<noteq> negative b))
      else if isZero a then signedZero (negative a \<noteq> negative b)
      else toDouble (finiteValue a / finiteValue b))"

definition fmul :: "double \<Rightarrow> double \<Rightarrow> double" where
  "fmul a b =
     (if a = NaN \<or> b = NaN then NaN
      else if isInf a \<or> isInf b then
        (if isZero a \<or> isZero b then NaN else signedInf (negative a \<noteq> negative b))
      else if isZero a \<or> isZero b then signedZero (negative a \<noteq> negative b)
      else toDouble (finiteValue a * finiteValue b))"

text \<open>\<open>Math.round\<close>: the nearest integer, a tie going up; a result of zero keeps the sign
  of a negative argument.\<close>

fun Math_round :: "double \<Rightarrow> double" where
  "Math_round (Fin v) =
     (let n = \<lfloor>v + 1 / 2\<rfloor> in if n = 0 \<and> v < 0 then MinusZero else Fin (of_int n))"
| "Math_round d = d"

text \<open>The comparisons \<open>>=\<close>, \<open>>\<close> and \<open>===\<close>: false whenever an operand is NaN, and the two
  zeros are equal.\<close>

fun rank :: "double \<Rightarrow> int \<times> rat" where
  "rank (Fin r) = (0, r)"
| "rank MinusZero = (0, 0)"
| "rank PlusInf = (1, 0)"
| "rank MinusInf = (- 1, 0)"
| "rank NaN = (0, 0)"

definition ge :: "double \<Rightarrow> double \<Rightarrow> bool" where
  "ge a b \<longleftrightarrow> a \<noteq> NaN \<and> b \<noteq> NaN \<and>
     (fst (rank b) < fst (rank a) \<or> fst (rank a) = fst (rank b) \<and> snd (rank b) \<le> snd (rank a))"

definition gt :: "double \<Rightarrow> double \<Rightarrow> bool" where
  "gt a b \<longleftrightarrow> a \<noteq> NaN \<and> b \<noteq> NaN \<and>
     (fst (rank b) < fst (rank a) \<or> fst (rank a) = fst (rank b) \<and> snd (rank b) < snd (rank a))"

definition strictEq :: "double \<Rightarrow> double \<Rightarrow> bool" where
  "strictEq a b \<longleftrightarrow> a \<noteq> NaN \<and> b \<noteq> NaN \<and> rank a = rank b"

text \<open>The magnitudes of the finite, non-zero doubles (and of what they would be without
  the upper bound on the exponent).\<close>

definition representable :: "rat \<Rightarrow> bool" where
  "representable a \<longleftrightarrow> (\<exists>m q. a = of_int m * 2 powi q \<and> 0 < m \<and> m \<le> 2 ^ 53 \<and> - 1074 \<le> q)"

subsection \<open>Notes and chords\<close>

text \<open>
  Modelled from the spec: \<open>note.Note\<close> and \<open>chord.Chord\<close> (note.ts and chord.ts are not
  among the sources). Only what miditools reads or writes is kept: the pitch number
  \<open>pitch.ps\<close>, \<open>duration.quarterLength\<close> and \<open>stemDirection\<close>; a chord "entity" holds the
  notes it was built from, in the order its constructor received them. The quarter length
  of a freshly constructed object is the parameter \<open>d0\<close> of the constructors.
\<close>

record Note =
  ps :: "int option"
  quarterLength :: double
  stemDirection :: "string option"

record Chord =
  chordNotes :: "Note list"
  chordQuarterLength :: double
  chordStemDirection :: "string option"

datatype element = NoteE Note | ChordE Chord

definition Note_new :: "double \<Rightarrow> Note" where
  "Note_new d0 = \<lparr>ps = None, quarterLength = d0, stemDirection = None\<rparr>"

definition Chord_new :: "double \<Rightarrow> Note list \<Rightarrow> Chord" where
  "Chord_new d0 ns = \<lparr>chordNotes = ns, chordQuarterLength = d0, chordStemDirection = None\<rparr>"

fun set_stemDirection :: "string option \<Rightarrow> element \<Rightarrow> element" where
  "set_stemDirection s (NoteE n) = NoteE (n\<lparr>stemDirection := s\<rparr>)"
| "set_stemDirection s (ChordE c) = ChordE (c\<lparr>chordStemDirection := s\<rparr>)"

fun set_quarterLength :: "double \<Rightarrow> element \<Rightarrow> element" where
  "set_quarterLength q (NoteE n) = NoteE (n\<lparr>quarterLength := q\<rparr>)"
| "set_quarterLength q (ChordE c) = ChordE (c\<lparr>chordQuarterLength := q\<rparr>)"



text \<open>The module-wide \<open>config\<close> object; \<open>metronome\<close> holds the tempo of the assigned
  Metronome, \<open>None\<close> when no metronome is assigned.\<close>

record config =
  transposeOctave :: int
  maxDelay :: int
  heldChordTime :: int
  heldChordNotes :: "Note list option"
  timeOfLastNote :: int
  lastElement :: "element option"
  baseTempo :: double
  metronome :: "double option"

text \<open>The getter \<open>config.tempo\<close>.\<close>

definition tempo :: "config \<Rightarrow> double" where
  "tempo cfg = (case metronome cfg of None \<Rightarrow> baseTempo cfg | Some t \<Rightarrow> t)"

text \<open>
  The module state seen by the chord functions: \<open>config\<close>, whether
  \<open>callBacks.sendOutChord\<close> is defined, and the elements that callback has been called
  with, oldest first (the callback is caller-supplied; the model records its calls).
\<close>

record world =
  conf :: config
  sendOutChordDefined :: bool
  sent :: "element list"

subsection \<open>Event\<close>

text \<open>\<open>a >> n\<close> of JavaScript on an integral number: ToInt32, then an arithmetic shift.\<close>

definition js_shr :: "int \<Rightarrow> nat \<Rightarrow> int" where
  "js_shr a n = sint (signed_drop_bit n (word_of_int a :: 32 word))"

record Event =
  timing :: int
  data1 :: int
  data2 :: int
  data3 :: int
  midiCommand :: int
  noteOff :: bool
  noteOn :: bool
  midiNote :: "int option"
  velocity :: "int option"

definition Event_new :: "config \<Rightarrow> int \<Rightarrow> int \<Rightarrow> int \<Rightarrow> int \<Rightarrow> Event" where
  "Event_new cfg t a b c =
     (let cmd = js_shr a 4;
          off = (cmd = 8);
          on = (cmd = 9)
      in \<lparr>timing = t, data1 = a, data2 = b, data3 = c,
          midiCommand = cmd, noteOff = off, noteOn = on,
          midiNote = (if on \<or> off then Some (b + 12 * transposeOctave cfg) else None),
          velocity = (if on \<or> off then Some c else None)\<rparr>)"

definition music21Note :: "double \<Rightarrow> Event \<Rightarrow> Note" where
  "music21Note d0 ev = (Note_new d0)\<lparr>ps := midiNote ev\<rparr>"

subsection \<open>Chords\<close>

text \<open>The \<open>for\<close> loop of \<open>makeChords\<close>: is there a held note with the pitch of \<open>m21n\<close>?\<close>

fun pitchHeld :: "Note list \<Rightarrow> Note \<Rightarrow> bool" where
  "pitchHeld [] m21n = False"
| "pitchHeld (foundNote # rest) m21n =
     (if ps foundNote = ps m21n then True else pitchHeld rest m21n)"

definition makeChords :: "double \<Rightarrow> config \<Rightarrow> Event \<Rightarrow> config" where
  "makeChords d0 cfg jEvent =
     (if noteOn jEvent then
        (let m21n = music21Note d0 jEvent in
         case heldChordNotes cfg of
           None \<Rightarrow> cfg\<lparr>heldChordNotes := Some [m21n]\<rparr>
         | Some held \<Rightarrow>
             if pitchHeld held m21n then cfg
             else cfg\<lparr>heldChordNotes := Some (held @ [m21n])\<rparr>)
      else cfg)"

text \<open>The notes pending in the current window (\<open>undefined\<close> holds none).\<close>

definition pending :: "config \<Rightarrow> Note list" where
  "pending cfg = (case heldChordNotes cfg of None \<Rightarrow> [] | Some held \<Rightarrow> held)"

subsection \<open>Quantizer\<close>

definition snap :: "double \<Rightarrow> double" where
  "snap r =
     (if ge r (Fin 4) then Fin 4
      else if ge r (Fin 3) then Fin 3
      else if gt r (Fin 2) then Fin 2
      else if strictEq r (Fin (5 / 4)) then Fin 1
      else if strictEq r (Fin (3 / 4)) then Fin (1 / 2)
      else if strictEq r (Fin 0) then Fin (1 / 8)
      else r)"

text \<open>
  \<open>quantizeLastNote\<close> reads and writes \<open>this.timeOfLastNote\<close>. The first argument is that
  \<open>this\<close>: \<open>None\<close> when the function is called plainly (in module code \<open>this\<close> is then
  \<open>undefined\<close> and the property read throws a TypeError), \<open>Some t\<close> for an object whose
  \<open>timeOfLastNote\<close> is \<open>t\<close>. \<open>now\<close> is what \<open>Date.now()\<close> returns. The result is the
  returned value and the \<open>this\<close> object afterwards. The elements passed in are notes and
  chords, both kinds of \<open>note.GeneralNote\<close>, so \<open>stemDirection\<close> is reset; that happens
  before \<open>this\<close> is read, so a call that throws leaves the element with its stem direction
  reset, and the error carries the element as it then is. Clock values are integers that
  doubles hold exactly, so the subtraction yields the double nearest to their difference.
\<close>

definition quantizeLastNote ::
  "int option \<Rightarrow> config \<Rightarrow> int \<Rightarrow> element option
     \<Rightarrow> (error \<times> element) + (element option \<times> int option)" where
  "quantizeLastNote this cfg now lastEl =
     (case lastEl of
        None \<Rightarrow> Inr (None, this)
      | Some el \<Rightarrow>
          (let el1 = set_stemDirection None el;
               nowInMS = now
           in case this of
                None \<Rightarrow> Inl (TypeError, el1)
              | Some t \<Rightarrow>
                  (let msSinceLastNote = toDouble (of_int (nowInMS - t));
                       normalQuarterNoteLength = fdiv (fmul (Fin 1000) (Fin 60)) (tempo cfg);
                       numQuarterNotes = fdiv msSinceLastNote normalQuarterNoteLength;
                       roundedQuarterLength =
                         fdiv (Math_round (fmul (Fin 4) numQuarterNotes)) (Fin 4)
                   in Inr (Some (set_quarterLength (snap roundedQuarterLength) el1),
                           Some nowInMS))))"

subsection \<open>Flushing\<close>

text \<open>
  \<open>sendOutChord\<close> calls \<open>quantizeLastNote()\<close> plainly and with no argument. \<open>now\<close> is the
  clock at the time of the call.
\<close>

definition sendOutChord ::
  "double \<Rightarrow> int \<Rightarrow> world \<Rightarrow> Note list \<Rightarrow> error + (element option \<times> world)" where
  "sendOutChord d0 now w chordNoteList =
     (case (if length chordNoteList > 1 then Some (ChordE (Chord_new d0 chordNoteList))
            else if length chordNoteList = 1 then Some (NoteE (chordNoteList ! 0))
            else None) of
        None \<Rightarrow> Inr (None, w)
      | Some appendObject0 \<Rightarrow>
          (let appendObject = set_stemDirection (Some ''noStem'') appendObject0
           in case quantizeLastNote None (conf w) now None of
                Inl (e, _) \<Rightarrow> Inl e
              | Inr _ \<Rightarrow>
                  (let w1 = w\<lparr>conf := (conf w)\<lparr>lastElement := Some appendObject\<rparr>\<rparr>;
                       w2 = (if sendOutChordDefined w1
                             then w1\<lparr>sent := sent w1 @ [appendObject]\<rparr> else w1)
                   in Inr (Some appendObject, w2))))"

text \<open>
  One run of \<open>clearOldChords\<close> at clock \<open>nowInMs\<close>. The second component of the result is
  the delay with which the function re-arms itself through \<open>setTimeout\<close>.
\<close>

definition clearOldChords :: "double \<Rightarrow> int \<Rightarrow> world \<Rightarrow> error + (world \<times> int)" where
  "clearOldChords d0 nowInMs w =
     (if heldChordTime (conf w) + maxDelay (conf w) < nowInMs then
        (let w1 = w\<lparr>conf := (conf w)\<lparr>heldChordTime := nowInMs\<rparr>\<rparr> in
         case heldChordNotes (conf w1) of
           None \<Rightarrow> Inr (w1, maxDelay (conf w1))
         | Some held \<Rightarrow>
             (case sendOutChord d0 nowInMs w1 held of
                Inl e \<Rightarrow> Inl e
              | Inr (_, w2) \<Rightarrow>
                  (let w3 = w2\<lparr>conf := (conf w2)\<lparr>heldChordNotes := None\<rparr>\<rparr>
                   in Inr (w3, maxDelay (conf w3)))))
      else Inr (w, maxDelay (conf w)))"

section \<open>prebase: ProtoM21Object\<close>

subsection \<open>classes and classSet\<close>

text \<open>
  \<open>constructorChain\<close> lists what \<open>.className\<close> evaluates to on \<open>this.constructor\<close> and on
  each further object that \<open>Object.getPrototypeOf\<close> yields, in that order (\<open>None\<close> is
  \<open>undefined\<close>); after the last entry \<open>Object.getPrototypeOf\<close> yields \<open>null\<close>. The chain of
  a class of this repository ends in \<open>Function.prototype\<close> and \<open>Object.prototype\<close>, on which
  no \<open>className\<close> is declared. A member of the class set is a constructor, identified by
  its position in the chain, or a name.
\<close>

datatype classMember = Constructor nat | Name string

record ProtoM21Object =
  constructorChain :: "string option list"
  storedClasses :: "string list option"
  storedClassSet :: "classMember list option"

text \<open>\<open>s.lastIndexOf(c)\<close> and \<open>s.slice(i)\<close> for \<open>i \<ge> 0\<close>.\<close>

definition lastIndexOf :: "string \<Rightarrow> char \<Rightarrow> int" where
  "lastIndexOf s c =
     (if c \<in> set s then int (length s) - 1 - int (length (takeWhile (\<lambda>x. x \<noteq> c) (rev s)))
      else - 1)"

definition slice :: "string \<Rightarrow> int \<Rightarrow> string" where
  "slice s i = drop (nat i) s"

definition shortName :: "string \<Rightarrow> string" where
  "shortName constructorName = slice constructorName (lastIndexOf constructorName (CHR ''.'') + 1)"

text \<open>\<open>Set.add\<close> on a set kept in insertion order.\<close>

definition set_add :: "'a \<Rightarrow> 'a list \<Rightarrow> 'a list" where
  "set_add x xs = (if x \<in> set xs then xs else xs @ [x])"

text \<open>
  The \<open>while\<close> loop of \<open>_populateClassCaches\<close>: \<open>maxLinks\<close> counts down from 20, \<open>i\<close> is
  the position of \<open>thisConstructor\<close> in the chain. At the end of the chain
  \<open>thisConstructor\<close> is \<open>null\<close>, which is not \<open>undefined\<close>, and reading its \<open>className\<close>
  throws a TypeError.
\<close>

fun populateLoop ::
  "nat \<Rightarrow> nat \<Rightarrow> string option list \<Rightarrow> string list \<Rightarrow> classMember list
     \<Rightarrow> error + (string list \<times> classMember list)" where
  "populateLoop 0 i chain classList classSet = Inr (classList, classSet)"
| "populateLoop (Suc maxLinks) i [] classList classSet = Inl TypeError"
| "populateLoop (Suc maxLinks) i (None # up) classList classSet = Inr (classList, classSet)"
| "populateLoop (Suc maxLinks) i (Some constructorName # up) classList classSet =
     (if constructorName = [] then Inr (classList, classSet)
      else
        (let constructorNameShort = shortName constructorName
         in populateLoop maxLinks (Suc i) up (classList @ [constructorNameShort])
              (set_add (Name constructorNameShort)
                (set_add (Name constructorName)
                  (set_add (Constructor i) classSet)))))"

definition populateClassCaches :: "ProtoM21Object \<Rightarrow> error + ProtoM21Object" where
  "populateClassCaches obj =
     (case populateLoop 20 0 (constructorChain obj) [] [] of
        Inl e \<Rightarrow> Inl e
      | Inr (classList, classSet) \<Rightarrow>
          Inr (obj\<lparr>storedClasses := Some (classList @ [''object'']),
                   storedClassSet := Some classSet\<rparr>))"

text \<open>The getters: the value returned and the object afterwards.\<close>

definition classes :: "ProtoM21Object \<Rightarrow> error + (string list option \<times> ProtoM21Object)" where
  "classes obj =
     (if storedClasses obj \<noteq> None then Inr (storedClasses obj, obj)
      else
        (case populateClassCaches obj of
           Inl e \<Rightarrow> Inl e
         | Inr obj' \<Rightarrow> Inr (storedClasses obj', obj')))"

definition classSet :: "ProtoM21Object \<Rightarrow> error + (classMember list option \<times> ProtoM21Object)" where
  "classSet obj =
     (if storedClassSet obj \<noteq> None then Inr (storedClassSet obj, obj)
      else
        (case populateClassCaches obj of
           Inl e \<Rightarrow> Inl e
         | Inr obj' \<Rightarrow> Inr (storedClassSet obj', obj')))"

subsection \<open>clone\<close>

text \<open>
  Objects live in a heap; a reference is an index into it. \<open>M21 a\<close> is a reference to an
  object whose \<open>isProtoM21Object\<close> is truthy; \<open>PlainObject\<close> is any other object (a plain
  object such as the \<open>_cloneCallbacks\<close> table, an array), kept by value. \<open>props\<close> are the
  own enumerable properties of an instance in enumeration order, a data property or an
  accessor (the value its getter returns if it has one, and whether it has a setter).
\<close>

datatype val =
    Undefined | Null | Boolean bool | Number int | String string
  | Function nat | PlainObject "(string \<times> val) list" | M21 nat

datatype property = Data val | Accessor "val option" bool

record jsobject =
  klass :: nat
  props :: "(string \<times> property) list"

type_synonym heap = "jsobject list"

text \<open>
  What the classes and functions outside prebase.ts do is a parameter:
  \<open>construct k h\<close> runs the zero-argument constructor of class \<open>k\<close> and gives the new
  instance's reference and the heap with it; \<open>assignThrows k key\<close> tells whether assigning
  to property \<open>key\<close> of an instance of class \<open>k\<close> throws (a getter-only accessor or a frozen
  instance gives a TypeError in module code, a setter may throw anything) or stores the
  value; \<open>callFunction f key ret this h\<close> calls function \<open>f\<close> as a clone callback;
  \<open>inherited v\<close> lists the properties that a look-up on the object \<open>v\<close> finds besides the
  own entries the model holds: those of its prototype chain (for a plain object, those of
  \<open>Object.prototype\<close>) and own ones that are not enumerable.
\<close>

record runtime =
  construct :: "nat \<Rightarrow> heap \<Rightarrow> nat \<times> heap"
  assignThrows :: "nat \<Rightarrow> string \<Rightarrow> error option"
  callFunction :: "nat \<Rightarrow> string \<Rightarrow> nat \<Rightarrow> nat \<Rightarrow> heap \<Rightarrow> error + heap"
  inherited :: "val \<Rightarrow> (string \<times> val) list"

definition lookupObj :: "heap \<Rightarrow> nat \<Rightarrow> jsobject option" where
  "lookupObj h a = (if a < length h then Some (h ! a) else None)"

fun readProp :: "property \<Rightarrow> val" where
  "readProp (Data v) = v"
| "readProp (Accessor (Some v) s) = v"
| "readProp (Accessor None s) = Undefined"

text \<open>\<open>obj[key]\<close> for an own property.\<close>

definition getProp :: "jsobject \<Rightarrow> string \<Rightarrow> val" where
  "getProp obj key = (case map_of (props obj) key of None \<Rightarrow> Undefined | Some p \<Rightarrow> readProp p)"

text \<open>\<open>ret[key] = v\<close>. A reference outside the heap denotes no object; no program can hold
  one, and the model answers with a TypeError.\<close>

definition assign :: "runtime \<Rightarrow> heap \<Rightarrow> nat \<Rightarrow> string \<Rightarrow> val \<Rightarrow> error + heap" where
  "assign R h ret key v =
     (case lookupObj h ret of
        None \<Rightarrow> Inl TypeError
      | Some obj \<Rightarrow>
          (case assignThrows R (klass obj) key of
             Some e \<Rightarrow> Inl e
           | None \<Rightarrow> Inr (h[ret := obj\<lparr>props := AList.update key (Data v) (props obj)\<rparr>])))"

text \<open>
  The properties of the value of \<open>this._cloneCallbacks\<close>, as \<open>key in ...\<close> and \<open>...[key]\<close>
  see them: own entries first, then the inherited ones. On a primitive value the \<open>in\<close>
  operator throws a TypeError.
\<close>

definition tableOf :: "runtime \<Rightarrow> heap \<Rightarrow> val \<Rightarrow> error + (string \<times> val) list" where
  "tableOf R h t =
     (case t of
        PlainObject own \<Rightarrow> Inr (own @ inherited R t)
      | M21 a \<Rightarrow>
          (case lookupObj h a of
             None \<Rightarrow> Inl TypeError
           | Some obj \<Rightarrow> Inr (map (\<lambda>(k, p). (k, readProp p)) (props obj) @ inherited R t))
      | Function f \<Rightarrow> Inr (inherited R t)
      | _ \<Rightarrow> Inl TypeError)"

text \<open>The branch of the \<open>if\<close> chain in the loop body that a key takes.\<close>

datatype branch = NotOwn | Callback val | IsAccessor | IsFunction | Nested nat | Default val

fun classify :: "val \<Rightarrow> branch" where
  "classify (Function f) = IsFunction"
| "classify (M21 a) = Nested a"
| "classify v = Default v"

definition fieldBranch :: "runtime \<Rightarrow> heap \<Rightarrow> nat \<Rightarrow> string \<Rightarrow> error + branch" where
  "fieldBranch R h this key =
     (case lookupObj h this of
        None \<Rightarrow> Inl TypeError
      | Some obj \<Rightarrow>
          (case map_of (props obj) key of
             None \<Rightarrow> Inr NotOwn
           | Some p \<Rightarrow>
               (case tableOf R h (getProp obj ''_cloneCallbacks'') of
                  Inl e \<Rightarrow> Inl e
                | Inr cloneCallbacks \<Rightarrow>
                    (case map_of cloneCallbacks key of
                       Some cb \<Rightarrow> Inr (Callback cb)
                     | None \<Rightarrow>
                         (case p of
                            Accessor g s \<Rightarrow>
                              if g \<noteq> None \<or> s then Inr IsAccessor
                              else Inr (classify (readProp p))
                          | Data v \<Rightarrow> Inr (classify v))))))"

definition thisValue :: "heap \<Rightarrow> nat \<Rightarrow> string \<Rightarrow> val" where
  "thisValue h this key = (case lookupObj h this of None \<Rightarrow> Undefined | Some obj \<Rightarrow> getProp obj key)"

text \<open>The three kinds of entry of \<open>_cloneCallbacks\<close>; calling what is not a function throws
  a TypeError.\<close>

definition runCallback ::
  "runtime \<Rightarrow> val \<Rightarrow> heap \<Rightarrow> nat \<Rightarrow> nat \<Rightarrow> string \<Rightarrow> error + heap" where
  "runCallback R cb h this ret key =
     (if cb = Boolean True then assign R h ret key (thisValue h this key)
      else if cb = Boolean False then assign R h ret key Undefined
      else (case cb of Function f \<Rightarrow> callFunction R f key ret this h | _ \<Rightarrow> Inl TypeError))"

text \<open>
  The deep branch of \<open>clone\<close> and its \<open>for ... in\<close> loop. \<open>depth\<close> is the number of nested
  calls of \<open>clone\<close> the call stack still has room for; when there is none, the call fails
  with a RangeError (stack overflow). \<open>memo\<close> is the WeakMap: the code reads it with
  \<open>has\<close> and \<open>get\<close> and never writes it. The keys of the loop are those \<open>this\<close> has when
  the loop starts; each value is read when its key is reached.
\<close>

fun cloneDeep :: "runtime \<Rightarrow> nat \<Rightarrow> (nat \<times> val) list \<Rightarrow> heap \<Rightarrow> nat \<Rightarrow> error + (nat \<times> heap)"
  and cloneKeys ::
    "runtime \<Rightarrow> nat \<Rightarrow> (nat \<times> val) list \<Rightarrow> nat \<Rightarrow> nat \<Rightarrow> string list \<Rightarrow> heap \<Rightarrow> error + heap"
where
  "cloneDeep R 0 memo h this = Inl RangeError"
| "cloneDeep R (Suc depth) memo h this =
     (case lookupObj h this of
        None \<Rightarrow> Inl TypeError
      | Some obj \<Rightarrow>
          (case construct R (klass obj) h of
             (ret, h1) \<Rightarrow>
               (case cloneKeys R depth memo this ret (map fst (props obj)) h1 of
                  Inl e \<Rightarrow> Inl e
                | Inr h2 \<Rightarrow> Inr (ret, h2))))"
| "cloneKeys R depth memo this ret [] h = Inr h"
| "cloneKeys R depth memo this ret (key # keys) h =
     (case fieldBranch R h this key of
        Inl e \<Rightarrow> Inl e
      | Inr NotOwn \<Rightarrow> cloneKeys R depth memo this ret keys h
      | Inr (Callback cb) \<Rightarrow>
          (case runCallback R cb h this ret key of
             Inl e \<Rightarrow> Inl e
           | Inr h' \<Rightarrow> cloneKeys R depth memo this ret keys h')
      | Inr IsAccessor \<Rightarrow> cloneKeys R depth memo this ret keys h
      | Inr IsFunction \<Rightarrow> cloneKeys R depth memo this ret keys h
      | Inr (Nested m21Obj) \<Rightarrow>
          (case (case map_of memo m21Obj of
                   Some clonedVersion \<Rightarrow> Inr (clonedVersion, h)
                 | None \<Rightarrow>
                     (case cloneDeep R depth memo h m21Obj of
                        Inl e \<Rightarrow> Inl e
                      | Inr (c, h') \<Rightarrow> Inr (M21 c, h'))) of
             Inl e \<Rightarrow> Inl e
           | Inr (clonedVersion, h') \<Rightarrow>
               (case assign R h' ret key clonedVersion of
                  Inl e \<Rightarrow> Inl e
                | Inr h'' \<Rightarrow> cloneKeys R depth memo this ret keys h''))
      | Inr (Default v) \<Rightarrow>
          (case assign R h ret key v of
             Inl e \<Rightarrow> (if e = TypeError then cloneKeys R depth memo this ret keys h else Inl e)
           | Inr h' \<Rightarrow> cloneKeys R depth memo this ret keys h'))"

text \<open>The shallow branch: \<open>Object.assign(Object.create(Object.getPrototypeOf(this)), this)\<close>.\<close>

fun assignAll :: "runtime \<Rightarrow> nat \<Rightarrow> (string \<times> property) list \<Rightarrow> heap \<Rightarrow> error + heap" where
  "assignAll R ret [] h = Inr h"
| "assignAll R ret ((key, p) # rest) h =
     (case assign R h ret key (readProp p) of
        Inl e \<Rightarrow> Inl e
      | Inr h' \<Rightarrow> assignAll R ret rest h')"

definition cloneShallow :: "runtime \<Rightarrow> heap \<Rightarrow> nat \<Rightarrow> error + (nat \<times> heap)" where
  "cloneShallow R h this =
     (case lookupObj h this of
        None \<Rightarrow> Inl TypeError
      | Some obj \<Rightarrow>
          (case assignAll R (length h) (props obj) (h @ [\<lparr>klass = klass obj, props = []\<rparr>]) of
             Inl e \<Rightarrow> Inl e
           | Inr h' \<Rightarrow> Inr (length h, h')))"

text \<open>\<open>clone(deep, memo)\<close>; an \<open>undefined\<close> memo becomes a new, empty WeakMap.\<close>

definition clone ::
  "runtime \<Rightarrow> nat \<Rightarrow> heap \<Rightarrow> nat \<Rightarrow> bool \<Rightarrow> (nat \<times> val) list option \<Rightarrow> error + (nat \<times> heap)" where
  "clone R depth h this deep memo =
     (if \<not> deep then cloneShallow R h this
      else cloneDeep R depth (case memo of None \<Rightarrow> [] | Some m \<Rightarrow> m) h this)"

section \<open>Example inputs\<close>

text \<open>The configuration as the module sets it when it is loaded at clock \<open>loaded\<close>, with
  the default (defined) \<open>callBacks.sendOutChord\<close>.\<close>

definition config_default :: "int \<Rightarrow> config" where
  "config_default loaded =
     \<lparr>transposeOctave = 0, maxDelay = 100, heldChordTime = 0, heldChordNotes = None,
      timeOfLastNote = loaded, lastElement = None, baseTempo = Fin 60, metronome = None\<rparr>"

definition world_default :: "int \<Rightarrow> world" where
  "world_default loaded = \<lparr>conf = config_default loaded, sendOutChordDefined = True, sent = []\<rparr>"

text \<open>A note with the duration of a dotted eighth, and the note-on event for a pitch.\<close>

definition middleC :: Note where
  "middleC = \<lparr>ps = Some 60, quarterLength = Fin (3 / 4), stemDirection = None\<rparr>"

definition noteOnEvent :: "int \<Rightarrow> Event" where
  "noteOnEvent p = Event_new (config_default 0) 0 144 p 100"

text \<open>A \<open>Fermata\<close> of expressions.js: Fermata, Expression, Music21Object, ProtoM21Object,
  then \<open>Function.prototype\<close> and \<open>Object.prototype\<close>.\<close>

definition fermata :: ProtoM21Object where
 "fermata = \<lparr>constructorChain = [Some ''music21.expressions.Fermata'', Some ''music21.expressions.Expression'',
     Some ''music21.base.Music21Object'', Some ''music21.prebase.ProtoM21Object'', None, None],
     storedClasses = None, storedClassSet = None\<rparr>"

text \<open>
  What a plain object inherits from \<open>Object.prototype\<close>. Function 0 stands for the methods
  that, called with the arguments of a clone callback, change nothing; function 1 for
  \<open>__defineGetter__\<close> and \<open>__defineSetter__\<close>, which throw a TypeError because their second
  argument (\<open>ret\<close>) is not a function; \<open>__proto__\<close> is an object and cannot be called.
\<close>

definition objectPrototype :: "(string \<times> val) list" where
  "objectPrototype =
     [(''constructor'', Function 0), (''hasOwnProperty'', Function 0),
      (''isPrototypeOf'', Function 0), (''propertyIsEnumerable'', Function 0),
      (''toLocaleString'', Function 0), (''toString'', Function 0), (''valueOf'', Function 0),
      (''__lookupGetter__'', Function 0), (''__lookupSetter__'', Function 0),
      (''__defineGetter__'', Function 1), (''__defineSetter__'', Function 1),
      (''__proto__'', PlainObject [])]"

text \<open>
  The own properties every ProtoM21Object gets from its field initialisers, and a runtime
  whose classes have no constructor arguments, setters or frozen instances: \<open>new\<close> makes an
  instance with the base properties, every assignment stores.
\<close>

definition baseProps :: "(string \<times> property) list" where
  "baseProps = [(''isProtoM21Object'', Data (Boolean True)),
                (''isMusic21Object'', Data (Boolean False)),
                (''_cloneCallbacks'', Data (PlainObject []))]"

definition plainRuntime :: runtime where
  "plainRuntime =
     \<lparr>construct = (\<lambda>k h. (length h, h @ [\<lparr>klass = k, props = baseProps\<rparr>])),
      assignThrows = (\<lambda>k key. None),
      callFunction = (\<lambda>f key ret this h. if f = 1 then Inl TypeError else Inr h),
      inherited = (\<lambda>v. objectPrototype)\<rparr>"

text \<open>Two instances that refer to each other through the field \<open>partner\<close>; \<open>holdsPair\<close>
  says that a heap still holds the two at references 0 and 1.\<close>

definition partnerObj :: "nat \<Rightarrow> jsobject" where
  "partnerObj p = \<lparr>klass = 0, props = baseProps @ [(''partner'', Data (M21 p))]\<rparr>"

definition cyclicPair :: heap where
  "cyclicPair = [partnerObj 1, partnerObj 0]"

definition holdsPair :: "heap \<Rightarrow> bool" where
  "holdsPair h \<longleftrightarrow> 2 \<le> length h \<and> h ! 0 = partnerObj 1 \<and> h ! 1 = partnerObj 0"

text \<open>An instance whose \<open>partner\<close> is \<open>null\<close>.\<close>

definition leafObj :: jsobject where
  "leafObj = \<lparr>klass = 0, props = baseProps @ [(''partner'', Data Null)]\<rparr>"

text \<open>
  A runtime in which assigning to \<open>locked\<close> throws a TypeError (a getter-only accessor of
  the class) and assigning to \<open>broken\<close> throws another error (a setter that fails); an
  instance with such a field \<open>k\<close> followed by a field \<open>n\<close>; and an instance whose
  \<open>_cloneCallbacks\<close> asks for \<open>locked\<close> to be copied by reference. A third runtime throws
  another error on assigning to \<open>valueOf\<close>.
\<close>

definition lockingRuntime :: runtime where
  "lockingRuntime =
     \<lparr>construct = (\<lambda>k h. (length h, h @ [\<lparr>klass = k, props = baseProps\<rparr>])),
      assignThrows = (\<lambda>k key. if key = ''locked'' then Some TypeError
                                else if key = ''broken'' then Some (Thrown ''setter failed'')
                                else None),
      callFunction = (\<lambda>f key ret this h. if f = 1 then Inl TypeError else Inr h),
      inherited = (\<lambda>v. objectPrototype)\<rparr>"

definition valueOfRuntime :: runtime where
  "valueOfRuntime =
     \<lparr>construct = (\<lambda>k h. (length h, h @ [\<lparr>klass = k, props = baseProps\<rparr>])),
      assignThrows = (\<lambda>k key. if key = ''valueOf'' then Some (Thrown ''setter failed'') else None),
      callFunction = (\<lambda>f key ret this h. if f = 1 then Inl TypeError else Inr h),
      inherited = (\<lambda>v. objectPrototype)\<rparr>"

definition fieldObj :: "string \<Rightarrow> jsobject" where
  "fieldObj k = \<lparr>klass = 0, props = baseProps @ [(k, Data (Number 1)), (''n'', Data (Number 2))]\<rparr>"

text \<open>An instance whose field \<open>locked\<close> holds a nested instance, and one whose
  \<open>_cloneCallbacks\<close> is \<open>null\<close>.\<close>

definition lockedNestedObj :: jsobject where
  "lockedNestedObj = \<lparr>klass = 0, props = baseProps @ [(''locked'', Data (M21 1))]\<rparr>"

definition nullTableObj :: jsobject where
  "nullTableObj = \<lparr>klass = 0, props = [(''_cloneCallbacks'', Data Null)]\<rparr>"

definition byRefObj :: jsobject where
  "byRefObj =
     \<lparr>klass = 0,
      props = [(''isProtoM21Object'', Data (Boolean True)),
               (''isMusic21Object'', Data (Boolean False)),
               (''_cloneCallbacks'', Data (PlainObject [(''locked'', Boolean True)])),
               (''locked'', Data (Number 1))]\<rparr>"

section \<open>Properties of miditools\<close>

subsection \<open>Helper facts\<close>

lemma js_shr_general: "js_shr a n = drop_bit n (signed_take_bit 31 a)"
  unfolding js_shr_def
  by (simp add: sint_signed_drop_bit_eq sint_sbintrunc')

lemma js_shr_small:
  assumes "- (2 ^ 31) \<le> a" "a < 2 ^ 31"
  shows "js_shr a n = a div 2 ^ n"
proof -
  have "signed_take_bit 31 a = a"
    using assms by (intro signed_take_bit_int_eq_self) simp_all
  then show ?thesis
    by (simp add: js_shr_general drop_bit_eq_div)
qed

lemma pitchHeld_iff: "pitchHeld held m \<longleftrightarrow> ps m \<in> ps ` set held"
  by (induction held) auto

lemma pending_makeChords:
  "map ps (pending (makeChords d0 cfg ev)) =
     (if noteOn ev \<and> midiNote ev \<notin> set (map ps (pending cfg))
      then map ps (pending cfg) @ [midiNote ev] else map ps (pending cfg))"
  by (auto simp: makeChords_def pending_def music21Note_def Note_new_def pitchHeld_iff Let_def
           split: option.splits)

lemma pending_foldl:
  "distinct (map ps (pending cfg)) \<Longrightarrow>
   map ps (pending (foldl (makeChords d0) cfg evs)) =
     rev (remdups (rev (map ps (pending cfg) @ map midiNote (filter noteOn evs))))"
proof (induction evs rule: rev_induct)
  case Nil
  then show ?case by (simp add: distinct_remdups_id)
next
  case (snoc ev evs)
  then show ?case
    by (auto simp: pending_makeChords)
qed

lemma makeChords_duplicate:
  "noteOn ev \<Longrightarrow> midiNote ev \<in> set (map ps (pending cfg)) \<Longrightarrow> makeChords d0 cfg ev = cfg"
  by (auto simp: makeChords_def pending_def music21Note_def Note_new_def pitchHeld_iff Let_def
           split: option.splits)

text \<open>Facts about doubles: values of the form \<open>m * 2 ^ q\<close> are rounded to themselves,
  every finite result of a division has that form, and so multiplying by 4, rounding to
  an integer and dividing by 4 are exact.\<close>

lemma ilog2_bounds:
  assumes "0 < a"
  shows "2 powi (ilog2 a) \<le> a" and "a < 2 powi (ilog2 a + 1)"
proof -
  show "2 powi (ilog2 a) \<le> a"
  proof (cases "1 \<le> a")
    case True
    then have n: "0 < \<lfloor>a\<rfloor>" by linarith
    from bitlen_bounds [OF n] have "(2::int) ^ nat (bitlen \<lfloor>a\<rfloor> - 1) \<le> \<lfloor>a\<rfloor>" by simp
    then have "of_int ((2::int) ^ nat (bitlen \<lfloor>a\<rfloor> - 1)) \<le> a"
      by (simp only: le_floor_iff)
    then have "(2::rat) ^ nat (bitlen \<lfloor>a\<rfloor> - 1) \<le> a" by simp
    moreover have "0 \<le> bitlen \<lfloor>a\<rfloor> - 1"
      using n by (simp add: bitlen_alt_def)
    ultimately show ?thesis
      using True by (simp add: ilog2_def power_int_def)
  next
    case False
    let ?c = "\<lceil>1 / a\<rceil>"
    let ?k = "bitlen (?c - 1)"
    have b: "1 < 1 / a" using False assms by (simp add: field_simps)
    then have c: "0 < ?c - 1" by linarith
    from bitlen_bounds [OF c] have "?c - 1 < 2 ^ nat ?k" by simp
    then have "?c \<le> 2 ^ nat ?k" by simp
    then have "1 / a \<le> of_int (2 ^ nat ?k)" by (simp only: ceiling_le_iff)
    then have "1 / a \<le> 2 ^ nat ?k" by simp
    then have "1 / 2 ^ nat ?k \<le> a"
      using assms by (simp add: field_simps)
    moreover have "1 \<le> ?k" using c by (simp add: bitlen_alt_def)
    then have "(2::rat) powi (- ?k) = 1 / 2 ^ nat ?k"
      by (simp add: power_int_def field_simps)
    ultimately show ?thesis
      using False by (simp add: ilog2_def)
  qed
  show "a < 2 powi (ilog2 a + 1)"
  proof (cases "1 \<le> a")
    case True
    then have n: "0 < \<lfloor>a\<rfloor>" by linarith
    from bitlen_bounds [OF n] have "\<lfloor>a\<rfloor> < 2 ^ nat (bitlen \<lfloor>a\<rfloor>)" by simp
    then have "a < of_int (2 ^ nat (bitlen \<lfloor>a\<rfloor>))" by (simp only: floor_less_iff)
    then have "a < 2 ^ nat (bitlen \<lfloor>a\<rfloor>)" by simp
    moreover have "0 \<le> bitlen \<lfloor>a\<rfloor>" by (rule bitlen_nonneg)
    ultimately show ?thesis
      using True by (simp add: ilog2_def power_int_def)
  next
    case False
    let ?c = "\<lceil>1 / a\<rceil>"
    let ?k = "bitlen (?c - 1)"
    have b: "1 < 1 / a" using False assms by (simp add: field_simps)
    then have c: "0 < ?c - 1" by linarith
    then have k: "1 \<le> ?k" by (simp add: bitlen_alt_def)
    from bitlen_bounds [OF c] have "2 ^ nat (?k - 1) \<le> ?c - 1" by simp
    then have "2 ^ nat (?k - 1) < ?c" by simp
    then have "of_int (2 ^ nat (?k - 1)) < 1 / a" by (simp only: less_ceiling_iff)
    then have "2 ^ nat (?k - 1) < 1 / a" by simp
    then have lt: "a < 1 / 2 ^ nat (?k - 1)"
      using assms by (simp add: field_simps)
    have "(2::rat) powi (- ?k + 1) = 1 / 2 ^ nat (?k - 1)"
      using k by (simp add: power_int_def field_simps)
    with lt show ?thesis
      using False by (simp add: ilog2_def)
  qed
qed

lemma roundHalfEven_of_int: "roundHalfEven (of_int k) = k"
  by (simp add: roundHalfEven_def)

lemma roundHalfEven_bounds: "\<lfloor>y\<rfloor> \<le> roundHalfEven y" "roundHalfEven y \<le> \<lceil>y\<rceil>"
  by (auto simp: roundHalfEven_def Let_def ceiling_altdef)

lemma toDouble_exact:
  assumes "representable a" "a < overflowThreshold"
  shows "toDouble a = Fin a" and "toDouble (- a) = Fin (- a)"
proof -
  from assms(1) obtain m q0 where a: "a = of_int m * 2 powi q0"
    and m: "0 < m" "m \<le> 2 ^ 53" and q0: "- 1074 \<le> q0"
    by (auto simp: representable_def)
  have pos: "0 < a" using a m by simp
  define e where "e = ilog2 a"
  define q where "q = max e (- 1022) - 52"
  have "of_int m \<le> (2::rat) ^ 53"
    using m(2) by (metis of_int_le_iff of_int_numeral of_int_power)
  then have "a \<le> 2 ^ 53 * 2 powi q0"
    unfolding a by (intro mult_right_mono) simp_all
  also have "\<dots> = 2 powi (q0 + 53)"
    by (simp add: power_int_add)
  finally have up: "a \<le> 2 powi (q0 + 53)" .
  have low: "2 powi e \<le> a"
    unfolding e_def by (rule ilog2_bounds [OF pos])
  from low up have "(2::rat) powi e \<le> 2 powi (q0 + 53)" by simp
  then have e: "e \<le> q0 + 53"
    using power_int_strict_increasing [of "q0 + 53" e "2::rat"] by force
  have "\<exists>k. 0 < k \<and> a / 2 powi q = of_int k"
  proof (cases "e = q0 + 53")
    case True
    with low up have "a = 2 powi (q0 + 53)" by simp
    moreover have "q = q0 + 1" using True q0 by (simp add: q_def)
    ultimately have "a / 2 powi q = 2 powi 52"
      by (simp add: power_int_diff [symmetric])
    then have "a / 2 powi q = of_int (2 ^ 52)" by simp
    then show ?thesis by (intro exI [of _ "2 ^ 52"]) simp
  next
    case False
    with e q0 have "q \<le> q0" by (simp add: q_def)
    then have "a / 2 powi q = of_int m * 2 powi (q0 - q)"
      unfolding a by (simp add: power_int_diff)
    also have "(2::rat) powi (q0 - q) = 2 ^ nat (q0 - q)"
      using \<open>q \<le> q0\<close> by (simp add: power_int_def)
    finally have "a / 2 powi q = of_int (m * 2 ^ nat (q0 - q))" by simp
    moreover have "0 < m * 2 ^ nat (q0 - q)" using m by simp
    ultimately show ?thesis by blast
  qed
  then obtain k where k: "0 < k" "a / 2 powi q = of_int k" by blast
  then have v: "of_int k * 2 powi q = a" by (simp add: field_simps)
  show "toDouble a = Fin a"
    using pos assms(2) k v
    by (simp add: toDouble_def Let_def e_def [symmetric] q_def [symmetric] roundHalfEven_of_int)
  show "toDouble (- a) = Fin (- a)"
    using pos assms(2) k v
    by (simp add: toDouble_def Let_def e_def [symmetric] q_def [symmetric] roundHalfEven_of_int)
qed

lemma toDouble_representable:
  assumes "toDouble x = Fin v"
  shows "v = 0 \<or> representable \<bar>v\<bar>"
proof (cases "x = 0")
  case True
  with assms show ?thesis by (simp add: toDouble_def)
next
  case False
  define a where "a = \<bar>x\<bar>"
  define q where "q = max (ilog2 a) (- 1022) - 52"
  define m where "m = roundHalfEven (a / 2 powi q)"
  have pos: "0 < a" using False by (simp add: a_def)
  have "0 \<le> \<lfloor>a / 2 powi q\<rfloor>" using pos by simp
  then have m_nonneg: "0 \<le> m"
    unfolding m_def using roundHalfEven_bounds(1) [of "a / 2 powi q"] by (rule order_trans)
  from assms False m_nonneg have v: "\<bar>v\<bar> = of_int m * 2 powi q \<or> v = 0"
    by (auto simp: toDouble_def Let_def a_def [symmetric] q_def [symmetric] m_def [symmetric]
             abs_mult split: if_splits)
  show ?thesis
  proof (cases "v = 0")
    case True
    then show ?thesis by simp
  next
    case nz: False
    with v have av: "\<bar>v\<bar> = of_int m * 2 powi q" by simp
    have "m \<noteq> 0" using av nz by auto
    with m_nonneg have m0: "0 < m" by simp
    have "a < 2 powi (ilog2 a + 1)" by (rule ilog2_bounds [OF pos])
    also have "(2::rat) powi (ilog2 a + 1) \<le> 2 powi (q + 53)"
      by (rule power_int_increasing) (simp_all add: q_def)
    also have "(2::rat) powi (q + 53) = 2 powi q * 2 ^ 53"
      by (simp add: power_int_add)
    finally have "a / 2 powi q < 2 ^ 53"
      by (simp add: field_simps)
    then have "a / 2 powi q \<le> of_int (2 ^ 53)" by simp
    then have "\<lceil>a / 2 powi q\<rceil> \<le> 2 ^ 53" by (simp only: ceiling_le_iff)
    with roundHalfEven_bounds(2) [of "a / 2 powi q"] have "m \<le> 2 ^ 53"
      unfolding m_def by (rule order_trans)
    moreover have "- 1074 \<le> q" by (simp add: q_def)
    ultimately have "representable \<bar>v\<bar>"
      using av m0 by (auto simp: representable_def)
    then show ?thesis ..
  qed
qed

lemma below_overflowThreshold: "a \<le> 2 ^ 53 \<Longrightarrow> a < overflowThreshold"
proof -
  assume "a \<le> 2 ^ 53"
  also have "(2::rat) ^ 53 < 2 ^ 1024"
    by (rule power_strict_increasing) simp_all
  also have "(2::rat) ^ 1024 = overflowThreshold"
    unfolding overflowThreshold_def by (rule power_int_numeral [symmetric])
  finally show ?thesis .
qed

lemma fdiv_representable:
  assumes "fdiv a b = Fin v"
  shows "v = 0 \<or> representable \<bar>v\<bar>"
proof (cases "fdiv a b = toDouble (finiteValue a / finiteValue b)")
  case True
  with assms show ?thesis by (simp add: toDouble_representable)
next
  case False
  with assms show ?thesis
    by (auto simp: fdiv_def signedZero_def signedInf_def split: if_splits)
qed

lemma fmul_4_exact:
  assumes "representable \<bar>v\<bar>" "\<bar>v\<bar> < 2 ^ 50"
  shows "fmul (Fin 4) (Fin v) = Fin (4 * v)"
proof -
  from assms(1) obtain m q where "\<bar>v\<bar> = of_int m * 2 powi q" "0 < m" "m \<le> 2 ^ 53" "- 1074 \<le> q"
    by (auto simp: representable_def)
  then have "4 * \<bar>v\<bar> = of_int m * 2 powi (q + 2)" "0 < m" "m \<le> 2 ^ 53" "- 1074 \<le> q + 2"
    by (simp_all add: power_int_add)
  then have r: "representable (4 * \<bar>v\<bar>)"
    unfolding representable_def by blast
  have "4 * \<bar>v\<bar> \<le> 2 ^ 53" using assms(2) by simp
  then have "4 * \<bar>v\<bar> < overflowThreshold" by (rule below_overflowThreshold)
  from toDouble_exact [OF r this] have "toDouble (4 * v) = Fin (4 * v)"
    by (cases "0 \<le> v") (simp_all add: abs_if)
  moreover have "v \<noteq> 0" using assms(1) by (auto simp: representable_def)
  ultimately show ?thesis
    by (simp add: fmul_def isInf_def isZero_def)
qed

lemma fdiv_4_exact:
  assumes "n \<noteq> 0" "\<bar>n\<bar> \<le> 2 ^ 53"
  shows "fdiv (Fin (of_int n)) (Fin 4) = Fin (of_int n / 4)"
proof -
  have "\<bar>of_int n / 4 :: rat\<bar> = of_int \<bar>n\<bar> * 2 powi (- 2)"
    by (simp add: power_int_minus)
  with assms have r: "representable \<bar>of_int n / 4 :: rat\<bar>"
    unfolding representable_def by (intro exI [of _ "\<bar>n\<bar>"] exI [of _ "- 2"]) simp
  have "(of_int \<bar>n\<bar> :: rat) \<le> of_int (2 ^ 53)"
    using assms(2) by (simp only: of_int_le_iff)
  then have "\<bar>of_int n / 4 :: rat\<bar> \<le> 2 ^ 53" by simp
  then have "\<bar>of_int n / 4 :: rat\<bar> < overflowThreshold" by (rule below_overflowThreshold)
  from toDouble_exact [OF r this] have "toDouble (of_int n / 4) = Fin (of_int n / 4)"
    by (cases "0 \<le> n") (simp_all add: abs_if)
  then show ?thesis
    using assms(1) by (simp add: fdiv_def isInf_def isZero_def)
qed

lemma nearest_quarter:
  assumes "fdiv a b = Fin v" and "\<bar>v\<bar> < 2 ^ 50"
  shows "strictEq (fdiv (Math_round (fmul (Fin 4) (Fin v))) (Fin 4))
           (Fin (of_int \<lfloor>4 * v + 1 / 2\<rfloor> / 4))"
proof (cases "v = 0")
  case True
  have "\<lfloor>1 / 2 :: rat\<rfloor> = 0" by linarith
  with True show ?thesis
    by (simp add: fmul_def fdiv_def isInf_def isZero_def signedZero_def strictEq_def)
next
  case False
  with fdiv_representable [OF assms(1)] have "representable \<bar>v\<bar>" by simp
  then have mul: "fmul (Fin 4) (Fin v) = Fin (4 * v)"
    using assms(2) by (rule fmul_4_exact)
  define n where "n = \<lfloor>4 * v + 1 / 2\<rfloor>"
  show ?thesis
  proof (cases "n = 0")
    case True
    then show ?thesis
      unfolding mul n_def [symmetric]
      by (simp add: n_def [symmetric] fdiv_def isInf_def isZero_def signedZero_def strictEq_def)
  next
    case nz: False
    have "\<bar>4 * v + 1 / 2\<bar> \<le> 2 ^ 53" using assms(2) by (simp add: abs_if split: if_splits)
    then have "\<bar>n\<bar> \<le> 2 ^ 53"
      unfolding n_def by (simp add: abs_le_iff le_floor_iff floor_le_iff) linarith
    from fdiv_4_exact [OF nz this] nz show ?thesis
      unfolding mul by (simp add: n_def [symmetric] strictEq_def)
  qed
qed

text \<open>The quantizer's arithmetic at tempo 60 for 1000, 4000 and 0 ms.\<close>

lemma toDouble_of_int:
  assumes "0 < n" "n \<le> 2 ^ 53"
  shows "toDouble (of_int n) = Fin (of_int n)"
proof -
  from assms have r: "representable (of_int n)"
    unfolding representable_def by (intro exI [of _ n] exI [of _ 0]) simp
  have "(of_int n :: rat) \<le> of_int (2 ^ 53)"
    using assms(2) by (simp only: of_int_le_iff)
  then have "(of_int n :: rat) \<le> 2 ^ 53" by simp
  then have "(of_int n :: rat) < overflowThreshold" by (rule below_overflowThreshold)
  from toDouble_exact(1) [OF r this] show ?thesis .
qed

lemma toDouble_small_numerals:
  "toDouble 1 = Fin 1" "toDouble 4 = Fin 4" "toDouble 16 = Fin 16"
  "toDouble 1000 = Fin 1000" "toDouble 4000 = Fin 4000" "toDouble 60000 = Fin 60000"
  using toDouble_of_int [of 1] toDouble_of_int [of 4] toDouble_of_int [of 16]
        toDouble_of_int [of 1000] toDouble_of_int [of 4000] toDouble_of_int [of 60000]
  by simp_all

lemma sixty_thousand: "fmul (Fin 1000) (Fin 60) = Fin 60000"
  by (simp add: fmul_def isInf_def isZero_def toDouble_small_numerals)

lemma floor_small:
  "\<lfloor>9 / 2 :: rat\<rfloor> = 4" "\<lfloor>33 / 2 :: rat\<rfloor> = 16" "\<lfloor>1 / 2 :: rat\<rfloor> = 0"
  by linarith+


lemma quotients:
  "fdiv (Fin 60000) (Fin 60) = Fin 1000"
  "fdiv (Fin 1000) (Fin 1000) = Fin 1"
  "fdiv (Fin 4000) (Fin 1000) = Fin 4"
  "fdiv (Fin 0) (Fin 1000) = Fin 0"
  "fdiv (Fin 4) (Fin 4) = Fin 1"
  "fdiv (Fin 16) (Fin 4) = Fin 4"
  "fdiv (Fin 0) (Fin 4) = Fin 0"
  "fmul (Fin 4) (Fin 1) = Fin 4"
  "fmul (Fin 4) (Fin 4) = Fin 16"
  "fmul (Fin 4) (Fin 0) = Fin 0"
  by (simp_all add: fdiv_def fmul_def isInf_def isZero_def signedZero_def toDouble_small_numerals)

lemma rounds:
  "Math_round (Fin 4) = Fin 4" "Math_round (Fin 16) = Fin 16" "Math_round (Fin 0) = Fin 0"
  by (simp_all add: floor_small)

lemma snaps:
  "snap (Fin 1) = Fin 1" "snap (Fin 4) = Fin 4" "snap (Fin 0) = Fin (1 / 8)"
  by (simp_all add: snap_def ge_def gt_def strictEq_def)

lemma calibration:
  "snap (fdiv (Math_round (fmul (Fin 4)
           (fdiv (toDouble (of_int 1000)) (fdiv (Fin 60000) (Fin 60))))) (Fin 4)) = Fin 1"
  "snap (fdiv (Math_round (fmul (Fin 4)
           (fdiv (toDouble (of_int 4000)) (fdiv (Fin 60000) (Fin 60))))) (Fin 4)) = Fin 4"
  "snap (fdiv (Math_round (fmul (Fin 4)
           (fdiv (toDouble (of_int 0)) (fdiv (Fin 60000) (Fin 60))))) (Fin 4)) = Fin (1 / 8)"
proof -
  have "toDouble (of_int 1000) = Fin 1000" "toDouble (of_int 4000) = Fin 4000"
       "toDouble (of_int 0) = Fin 0"
    by (simp_all add: toDouble_small_numerals) (simp add: toDouble_def)
  then show
    "snap (fdiv (Math_round (fmul (Fin 4)
           (fdiv (toDouble (of_int 1000)) (fdiv (Fin 60000) (Fin 60))))) (Fin 4)) = Fin 1"
    "snap (fdiv (Math_round (fmul (Fin 4)
           (fdiv (toDouble (of_int 4000)) (fdiv (Fin 60000) (Fin 60))))) (Fin 4)) = Fin 4"
    "snap (fdiv (Math_round (fmul (Fin 4)
           (fdiv (toDouble (of_int 0)) (fdiv (Fin 60000) (Fin 60))))) (Fin 4)) = Fin (1 / 8)"
    by (simp_all only: quotients rounds snaps)
qed

lemma noteOnEvent_simps:
  "noteOn (noteOnEvent p) = True" "midiNote (noteOnEvent p) = Some p"
proof -
  have "js_shr 144 4 = 9"
    using js_shr_small [of 144 4] by simp
  then show "noteOn (noteOnEvent p) = True" "midiNote (noteOnEvent p) = Some p"
    by (simp_all add: noteOnEvent_def Event_new_def config_default_def Let_def)
qed

subsection \<open>Event\<close>

text \<open>
  C6: for every constructed event with timestamp \<open>t\<close>, status byte \<open>a\<close> and data bytes \<open>b\<close>,
  \<open>c\<close>, the command is \<open>a >> 4\<close> (the top nibble \<open>a div 16\<close> of a byte); the note number
  and the velocity are set if and only if the command is 8 or 9, and then the note number
  is \<open>b + 12 * transposeOctave\<close> and the velocity is \<open>c\<close>; otherwise both are unset.
\<close>

theorem Event_new_fields:
  fixes cfg :: config and t a b c :: int
  defines "ev \<equiv> Event_new cfg t a b c"
  shows "midiCommand ev = js_shr a 4
       \<and> (0 \<le> a \<and> a < 256 \<longrightarrow> midiCommand ev = a div 16)
       \<and> (midiNote ev \<noteq> None \<longleftrightarrow> midiCommand ev = 8 \<or> midiCommand ev = 9)
       \<and> (velocity ev \<noteq> None \<longleftrightarrow> midiCommand ev = 8 \<or> midiCommand ev = 9)
       \<and> (midiCommand ev = 8 \<or> midiCommand ev = 9 \<longrightarrow>
            midiNote ev = Some (b + 12 * transposeOctave cfg) \<and> velocity ev = Some c)
       \<and> (midiCommand ev \<noteq> 8 \<and> midiCommand ev \<noteq> 9 \<longrightarrow> midiNote ev = None \<and> velocity ev = None)"
proof -
  have "0 \<le> a \<and> a < 256 \<longrightarrow> js_shr a 4 = a div 16"
    using js_shr_small [of a 4] by simp
  then show ?thesis
    by (auto simp: ev_def Event_new_def Let_def)
qed

theorem Event_new_fields_witness:
  "midiCommand (Event_new (config_default 0 \<lparr>transposeOctave := 1\<rparr>) 5 144 60 100) = 9
   \<and> midiNote (Event_new (config_default 0 \<lparr>transposeOctave := 1\<rparr>) 5 144 60 100) = Some 72
   \<and> velocity (Event_new (config_default 0 \<lparr>transposeOctave := 1\<rparr>) 5 144 60 100) = Some 100
   \<and> midiCommand (Event_new (config_default 0) 7 176 64 127) = 11
   \<and> midiNote (Event_new (config_default 0) 7 176 64 127) = None
   \<and> velocity (Event_new (config_default 0) 7 176 64 127) = None"
  using Event_new_fields [of "config_default 0 \<lparr>transposeOctave := 1\<rparr>" 5 144 60 100]
        Event_new_fields [of "config_default 0" 7 176 64 127]
  by (simp add: config_default_def)

subsection \<open>Collecting notes\<close>

text \<open>
  C3: whatever events \<open>makeChords\<close> processes in a window, the held notes never contain
  two entries with the same pitch, and a note-on whose pitch is already pending leaves the
  state unchanged (it is dropped, no error is raised).
\<close>

theorem makeChords_no_duplicate_pitch:
  assumes "distinct (map ps (pending cfg))"
  shows "distinct (map ps (pending (foldl (makeChords d0) cfg evs)))
       \<and> (noteOn ev \<and> midiNote ev \<in> set (map ps (pending cfg)) \<longrightarrow> makeChords d0 cfg ev = cfg)"
  using assms by (simp add: pending_foldl makeChords_duplicate)

theorem makeChords_no_duplicate_pitch_witness:
  "distinct (map ps (pending (config_default 0)))
   \<and> map ps (pending (foldl (makeChords (Fin 1)) (config_default 0)
                       [noteOnEvent 60, noteOnEvent 64, noteOnEvent 60])) = [Some 60, Some 64]
   \<and> distinct (map ps (pending (foldl (makeChords (Fin 1)) (config_default 0)
                       [noteOnEvent 60, noteOnEvent 64, noteOnEvent 60])))"
  using makeChords_no_duplicate_pitch [of "config_default 0" "Fin 1"
          "[noteOnEvent 60, noteOnEvent 64, noteOnEvent 60]"]
  by (simp add: pending_def config_default_def makeChords_def music21Note_def Note_new_def
        noteOnEvent_simps)

subsection \<open>Flushing\<close>



text \<open>
  C10: \<open>sendOutChord\<close> with an empty list returns \<open>undefined\<close> and changes nothing: the
  callback is not called, \<open>lastElement\<close> and the time of the last note stay as they were.
\<close>

theorem sendOutChord_empty: "sendOutChord d0 now w [] = Inr (None, w)"
  by (simp add: sendOutChord_def)




subsection \<open>Quantizer\<close>

text \<open>
  C2: for a defined element, a previous timestamp, the current time and a tempo, the
  quantizer computes \<open>x = elapsedMs / (60000 / tempo)\<close> in double arithmetic, takes
  \<open>r = Math.round(4 * x) / 4\<close> and stores \<open>r\<close> snapped by the rules, the first that applies:
  \<open>r \<ge> 4\<close> gives 4, \<open>r \<ge> 3\<close> gives 3, \<open>r > 2\<close> gives 2, 1.25 gives 1, 0.75 gives 0.5, 0 gives
  0.125, any other \<open>r\<close> is kept. For a finite \<open>x\<close> below \<open>2 ^ 50\<close> in magnitude the scaling by
  4 is exact, so \<open>r\<close> is the quarter nearest to \<open>x\<close> (a tie going up), at most 1/8 away.
  The quantizer also resets the stem direction and advances the previous timestamp to the
  current time. At tempo 60, 1000 ms give 1, 4000 ms give 4 and 0 ms give 0.125.
\<close>

theorem quantizeLastNote_snaps:
  "(let x = fdiv (toDouble (of_int (now - prev))) (fdiv (Fin 60000) (tempo cfg));
        r = fdiv (Math_round (fmul (Fin 4) x)) (Fin 4);
        q = snap r
    in quantizeLastNote (Some prev) cfg now (Some el) =
         Inr (Some (set_quarterLength q (set_stemDirection None el)), Some now)
       \<and> (x = Fin v \<and> \<bar>v\<bar> < 2 ^ 50 \<longrightarrow>
            strictEq r (Fin (of_int \<lfloor>4 * v + 1 / 2\<rfloor> / 4))
            \<and> \<bar>of_int \<lfloor>4 * v + 1 / 2\<rfloor> / 4 - v\<bar> \<le> 1 / 8)
       \<and> (ge r (Fin 4) \<longrightarrow> q = Fin 4)
       \<and> (\<not> ge r (Fin 4) \<and> ge r (Fin 3) \<longrightarrow> q = Fin 3)
       \<and> (\<not> ge r (Fin 3) \<and> gt r (Fin 2) \<longrightarrow> q = Fin 2)
       \<and> (strictEq r (Fin (5 / 4)) \<longrightarrow> q = Fin 1)
       \<and> (strictEq r (Fin (3 / 4)) \<longrightarrow> q = Fin (1 / 2))
       \<and> (strictEq r (Fin 0) \<longrightarrow> q = Fin (1 / 8))
       \<and> (\<not> gt r (Fin 2) \<and> \<not> strictEq r (Fin (5 / 4)) \<and> \<not> strictEq r (Fin (3 / 4))
            \<and> \<not> strictEq r (Fin 0) \<longrightarrow> q = r)
       \<and> (tempo cfg = Fin 60 \<and> now - prev = 1000 \<longrightarrow> q = Fin 1)
       \<and> (tempo cfg = Fin 60 \<and> now - prev = 4000 \<longrightarrow> q = Fin 4)
       \<and> (tempo cfg = Fin 60 \<and> now - prev = 0 \<longrightarrow> q = Fin (1 / 8)))"
proof -
  define x where "x = fdiv (toDouble (of_int (now - prev))) (fdiv (Fin 60000) (tempo cfg))"
  define r where "r = fdiv (Math_round (fmul (Fin 4) x)) (Fin 4)"
  have call: "quantizeLastNote (Some prev) cfg now (Some el) =
      Inr (Some (set_quarterLength (snap r) (set_stemDirection None el)), Some now)"
    unfolding r_def x_def
    by (simp only: quantizeLastNote_def Let_def option.case sixty_thousand)
  have near: "x = Fin v \<and> \<bar>v\<bar> < 2 ^ 50 \<longrightarrow>
            strictEq r (Fin (of_int \<lfloor>4 * v + 1 / 2\<rfloor> / 4))
            \<and> \<bar>of_int \<lfloor>4 * v + 1 / 2\<rfloor> / 4 - v\<bar> \<le> 1 / 8"
  proof (intro impI conjI)
    assume a: "x = Fin v \<and> \<bar>v\<bar> < 2 ^ 50"
    then have "fdiv (toDouble (of_int (now - prev))) (fdiv (Fin 60000) (tempo cfg)) = Fin v"
      by (simp add: x_def)
    from nearest_quarter [OF this] a
    show "strictEq r (Fin (of_int \<lfloor>4 * v + 1 / 2\<rfloor> / 4))"
      by (simp add: r_def)
    have "\<bar>of_int \<lfloor>4 * v + 1 / 2\<rfloor> - 4 * v\<bar> \<le> 1 / 2" by linarith
    then show "\<bar>of_int \<lfloor>4 * v + 1 / 2\<rfloor> / 4 - v\<bar> \<le> 1 / 8" by linarith
  qed
  have rules: "(ge r (Fin 4) \<longrightarrow> snap r = Fin 4)
       \<and> (\<not> ge r (Fin 4) \<and> ge r (Fin 3) \<longrightarrow> snap r = Fin 3)
       \<and> (\<not> ge r (Fin 3) \<and> gt r (Fin 2) \<longrightarrow> snap r = Fin 2)
       \<and> (strictEq r (Fin (5 / 4)) \<longrightarrow> snap r = Fin 1)
       \<and> (strictEq r (Fin (3 / 4)) \<longrightarrow> snap r = Fin (1 / 2))
       \<and> (strictEq r (Fin 0) \<longrightarrow> snap r = Fin (1 / 8))
       \<and> (\<not> gt r (Fin 2) \<and> \<not> strictEq r (Fin (5 / 4)) \<and> \<not> strictEq r (Fin (3 / 4))
            \<and> \<not> strictEq r (Fin 0) \<longrightarrow> snap r = r)"
    by (cases r) (auto simp: snap_def ge_def gt_def strictEq_def)
  have cal: "(tempo cfg = Fin 60 \<and> now - prev = 1000 \<longrightarrow> snap r = Fin 1)
       \<and> (tempo cfg = Fin 60 \<and> now - prev = 4000 \<longrightarrow> snap r = Fin 4)
       \<and> (tempo cfg = Fin 60 \<and> now - prev = 0 \<longrightarrow> snap r = Fin (1 / 8))"
    unfolding r_def x_def using calibration by auto
  from call near rules cal show ?thesis
    unfolding Let_def x_def [symmetric] r_def [symmetric] by blast
qed

theorem quantizeLastNote_snaps_witness:
  "quantizeLastNote (Some 0) (config_default 0) 1000 (Some (NoteE middleC)) =
     Inr (Some (NoteE (middleC\<lparr>quarterLength := Fin 1, stemDirection := None\<rparr>)), Some 1000)
   \<and> quantizeLastNote (Some 500) (config_default 0) 4500 (Some (NoteE middleC)) =
     Inr (Some (NoteE (middleC\<lparr>quarterLength := Fin 4, stemDirection := None\<rparr>)), Some 4500)
   \<and> quantizeLastNote (Some 500) (config_default 0) 500 (Some (NoteE middleC)) =
     Inr (Some (NoteE (middleC\<lparr>quarterLength := Fin (1 / 8), stemDirection := None\<rparr>)), Some 500)
   \<and> fdiv (toDouble (of_int (1000 - 0))) (fdiv (Fin 60000) (tempo (config_default 0))) = Fin 1
   \<and> \<bar>1 :: rat\<bar> < 2 ^ 50
   \<and> strictEq (fdiv (Math_round (fmul (Fin 4) (Fin 1))) (Fin 4)) (Fin (of_int \<lfloor>4 * 1 + 1 / 2 :: rat\<rfloor> / 4))"
proof -
  have x: "fdiv (toDouble (of_int (1000 - 0))) (fdiv (Fin 60000) (tempo (config_default 0))) = Fin 1"
    by (simp add: tempo_def config_default_def quotients toDouble_small_numerals)
  from quantizeLastNote_snaps [of 1000 0 "config_default 0" "NoteE middleC" 1]
       quantizeLastNote_snaps [of 4500 500 "config_default 0" "NoteE middleC" 1]
       quantizeLastNote_snaps [of 500 500 "config_default 0" "NoteE middleC" 1] x
  show ?thesis
    by (simp add: Let_def tempo_def config_default_def)
qed

subsection \<open>The recurring tick\<close>

text \<open>
  C5, as stated: a tick with no pending note leaves all state unchanged, \<open>heldChordTime\<close>
  included. With nothing pending, \<open>heldChordTime = 0\<close> and \<open>maxDelay = 100\<close>, the tick at
  clock 500 sets \<open>heldChordTime\<close> to 500.
\<close>

theorem clearOldChords_noop_counterexample:
  "heldChordNotes (conf (world_default 0)) = None
   \<and> clearOldChords (Fin 1) 500 (world_default 0) =
       Inr ((world_default 0)\<lparr>conf := (config_default 0)\<lparr>heldChordTime := 500\<rparr>\<rparr>, 100)
   \<and> heldChordTime (conf (world_default 0)) = 0
   \<and> heldChordTime (conf ((world_default 0)\<lparr>conf := (config_default 0)\<lparr>heldChordTime := 500\<rparr>\<rparr>)) = 500"
  by (simp add: clearOldChords_def world_default_def config_default_def Let_def)

text \<open>
  C5, amended: a tick with no pending note emits nothing and re-arms itself with
  \<open>maxDelay\<close>. When \<open>heldChordTime + maxDelay\<close> is before the clock it advances
  \<open>heldChordTime\<close> to the clock (and an empty held list becomes \<open>undefined\<close>); otherwise it
  changes nothing. Everything else in the state is left as it was.
\<close>

theorem clearOldChords_idle_tick:
  assumes "pending (conf w) = []"
  shows "clearOldChords d0 now w =
           Inr (if heldChordTime (conf w) + maxDelay (conf w) < now
                then w\<lparr>conf := (conf w)\<lparr>heldChordTime := now, heldChordNotes := None\<rparr>\<rparr>
                else w,
                maxDelay (conf w))"
  using assms
  by (auto simp: clearOldChords_def pending_def sendOutChord_def Let_def split: option.splits)

theorem clearOldChords_idle_tick_witness:
  "pending (conf (world_default 0)) = []
   \<and> clearOldChords (Fin 1) 500 (world_default 0) =
       Inr ((world_default 0)\<lparr>conf := (config_default 0)\<lparr>heldChordTime := 500\<rparr>\<rparr>, 100)
   \<and> clearOldChords (Fin 1) 50 (world_default 0) = Inr (world_default 0, 100)"
  using clearOldChords_idle_tick [of "world_default 0" "Fin 1" 500]
        clearOldChords_idle_tick [of "world_default 0" "Fin 1" 50]
  by (simp add: pending_def world_default_def config_default_def)

section \<open>Properties of ProtoM21Object\<close>

subsection \<open>classes\<close>

lemma shortName_after_last_dot:
  "shortName s = rev (takeWhile (\<lambda>x. x \<noteq> CHR ''.'') (rev s))"
proof (cases "CHR ''.'' \<in> set s")
  case True
  let ?tw = "takeWhile (\<lambda>x. x \<noteq> CHR ''.'') (rev s)"
  have "?tw \<noteq> rev s"
    using True by (simp add: takeWhile_eq_all_conv)
  moreover have "?tw = take (length ?tw) (rev s)"
    by (rule takeWhile_eq_take)
  ultimately have "length ?tw \<noteq> length (rev s)"
    by (metis take_all order_refl)
  moreover have "length ?tw \<le> length (rev s)"
    by (rule length_takeWhile_le)
  ultimately have len: "length ?tw < length s"
    by simp
  have "drop (length s - length ?tw) s = rev (take (length ?tw) (rev s))"
    by (simp add: take_rev)
  also have "take (length ?tw) (rev s) = ?tw"
    by (rule takeWhile_eq_take [symmetric])
  finally show ?thesis
    using True len by (simp add: shortName_def slice_def lastIndexOf_def nat_diff_distrib)
next
  case False
  then have tw: "takeWhile (\<lambda>x. x \<noteq> CHR ''.'') (rev s) = rev s"
    by (auto simp: takeWhile_eq_all_conv)
  show ?thesis
    using False by (simp add: shortName_def slice_def lastIndexOf_def tw)
qed

lemma populateLoop_classList:
  "takeWhile (\<lambda>c. c \<noteq> None \<and> c \<noteq> Some []) (take m chain) \<noteq> chain \<or> m \<le> length chain \<Longrightarrow>
   \<exists>cs'. populateLoop m i chain cl cs =
     Inr (cl @ map (shortName \<circ> the) (takeWhile (\<lambda>c. c \<noteq> None \<and> c \<noteq> Some []) (take m chain)), cs')"
proof (induction m i chain cl cs rule: populateLoop.induct)
  case (4 maxLinks i constructorName up classList classSet)
  show ?case
  proof (cases "constructorName = []")
    case True
    then show ?thesis by simp
  next
    case False
    with 4 show ?thesis by (auto simp: Let_def)
  qed
qed simp_all

lemma populateLoop_exhausted:
  "takeWhile (\<lambda>c. c \<noteq> None \<and> c \<noteq> Some []) (take m chain) = chain \<Longrightarrow> length chain < m \<Longrightarrow>
   populateLoop m i chain cl cs = Inl TypeError"
proof (induction m i chain cl cs rule: populateLoop.induct)
  case (4 maxLinks i constructorName up classList classSet)
  then show ?case by (auto simp: Let_def split: if_splits)
qed simp_all

text \<open>
  C7: on first access \<open>classes\<close> walks the constructor chain from the closest class on,
  collects the short name of each declared class name until a name is undefined or empty
  or 20 links have been followed, appends \<open>object\<close>, and stores the list; every later
  access returns the stored list, whatever the chain is by then. The hypothesis says that
  the walk stops before it runs off the chain, which holds for every class, since
  \<open>Function.prototype\<close> declares no \<open>className\<close>.
\<close>

theorem classes_closest_first_cached:
  assumes "storedClasses obj = None"
    and "takeWhile (\<lambda>c. c \<noteq> None \<and> c \<noteq> Some []) (take 20 (constructorChain obj)) \<noteq> constructorChain obj
         \<or> 20 \<le> length (constructorChain obj)"
  shows "\<exists>obj'.
           classes obj =
             Inr (Some (map (shortName \<circ> the)
                         (takeWhile (\<lambda>c. c \<noteq> None \<and> c \<noteq> Some []) (take 20 (constructorChain obj)))
                        @ [''object'']), obj')
         \<and> (\<forall>chain. classes (obj'\<lparr>constructorChain := chain\<rparr>) =
             Inr (Some (map (shortName \<circ> the)
                         (takeWhile (\<lambda>c. c \<noteq> None \<and> c \<noteq> Some []) (take 20 (constructorChain obj)))
                        @ [''object'']), obj'\<lparr>constructorChain := chain\<rparr>))"
proof -
  from populateLoop_classList [OF assms(2), of 0 "[]" "[]"]
  obtain cs' where "populateLoop 20 0 (constructorChain obj) [] [] =
     Inr (map (shortName \<circ> the)
           (takeWhile (\<lambda>c. c \<noteq> None \<and> c \<noteq> Some []) (take 20 (constructorChain obj))), cs')"
    by auto
  with assms(1) show ?thesis
    by (simp add: classes_def populateClassCaches_def)
qed

theorem classes_closest_first_cached_witness:
  "storedClasses fermata = None
   \<and> (\<exists>obj'.
         classes fermata =
           Inr (Some [''Fermata'', ''Expression'', ''Music21Object'', ''ProtoM21Object'', ''object''],
                obj')
       \<and> (\<forall>chain. classes (obj'\<lparr>constructorChain := chain\<rparr>) =
           Inr (Some [''Fermata'', ''Expression'', ''Music21Object'', ''ProtoM21Object'', ''object''],
                obj'\<lparr>constructorChain := chain\<rparr>)))"
proof -
  have h1: "storedClasses fermata = None"
    by (simp add: fermata_def)
  have h2: "takeWhile (\<lambda>c. c \<noteq> None \<and> c \<noteq> Some []) (take 20 (constructorChain fermata))
              \<noteq> constructorChain fermata \<or> 20 \<le> length (constructorChain fermata)"
    by (simp add: fermata_def)
  have names: "map (shortName \<circ> the)
                 (takeWhile (\<lambda>c. c \<noteq> None \<and> c \<noteq> Some []) (take 20 (constructorChain fermata)))
               @ [''object'']
             = [''Fermata'', ''Expression'', ''Music21Object'', ''ProtoM21Object'', ''object'']"
    by (simp add: fermata_def shortName_after_last_dot)
  from classes_closest_first_cached [OF h1 h2] h1 show ?thesis
    unfolding names by blast
qed

subsection \<open>clone\<close>

lemma holdsPair_lookup:
  "holdsPair h \<Longrightarrow> a < 2 \<Longrightarrow> lookupObj h a = Some (partnerObj (1 - a))"
  by (cases a) (auto simp: holdsPair_def lookupObj_def less_Suc_eq)

lemma holdsPair_append: "holdsPair h \<Longrightarrow> holdsPair (h @ [x])"
  by (auto simp: holdsPair_def nth_append)

lemma holdsPair_branch_base:
  assumes "holdsPair h" "a < 2"
  shows "fieldBranch plainRuntime h a ''isProtoM21Object'' = Inr (Default (Boolean True))"
    and "fieldBranch plainRuntime h a ''isMusic21Object'' = Inr (Default (Boolean False))"
    and "fieldBranch plainRuntime h a ''_cloneCallbacks'' = Inr (Default (PlainObject []))"
    and "fieldBranch plainRuntime h a ''partner'' = Inr (Nested (1 - a))"
  using holdsPair_lookup [OF assms]
  by (simp_all add: fieldBranch_def tableOf_def partnerObj_def baseProps_def getProp_def
        plainRuntime_def objectPrototype_def)

lemma holdsPair_assign:
  assumes "holdsPair h" "2 \<le> ret" "ret < length h"
  shows "\<exists>h'. assign plainRuntime h ret key v = Inr h' \<and> holdsPair h' \<and> length h' = length h"
  using assms by (auto simp: assign_def lookupObj_def plainRuntime_def holdsPair_def)

lemma cyclic_overflow:
  "holdsPair h \<Longrightarrow> a < 2 \<Longrightarrow> cloneDeep plainRuntime depth [] h a = Inl RangeError"
proof (induction depth arbitrary: h a)
  case 0
  show ?case by simp
next
  case (Suc depth)
  let ?ret = "length h"
  let ?h1 = "h @ [\<lparr>klass = 0, props = baseProps\<rparr>]"
  have l1: "holdsPair ?h1" "2 \<le> ?ret" "?ret < length ?h1"
    using Suc.prems(1) by (simp_all add: holdsPair_append) (simp add: holdsPair_def)
  from holdsPair_assign [OF l1, of "''isProtoM21Object''" "Boolean True"]
  obtain h2 where h2: "assign plainRuntime ?h1 ?ret ''isProtoM21Object'' (Boolean True) = Inr h2"
      "holdsPair h2" "length h2 = length ?h1"
    by blast
  with l1 have l2: "holdsPair h2" "2 \<le> ?ret" "?ret < length h2" by simp_all
  from holdsPair_assign [OF l2, of "''isMusic21Object''" "Boolean False"]
  obtain h3 where h3: "assign plainRuntime h2 ?ret ''isMusic21Object'' (Boolean False) = Inr h3"
      "holdsPair h3" "length h3 = length h2"
    by blast
  with l2 have l3: "holdsPair h3" "2 \<le> ?ret" "?ret < length h3" by simp_all
  from holdsPair_assign [OF l3, of "''_cloneCallbacks''" "PlainObject []"]
  obtain h4 where h4: "assign plainRuntime h3 ?ret ''_cloneCallbacks'' (PlainObject []) = Inr h4"
      "holdsPair h4" "length h4 = length h3"
    by blast
  have "1 - a < 2" by simp
  then have nested: "cloneDeep plainRuntime depth [] h4 (1 - a) = Inl RangeError"
    using Suc.IH [OF h4(2)] by blast
  have keys: "cloneKeys plainRuntime depth [] a ?ret
                [''isProtoM21Object'', ''isMusic21Object'', ''_cloneCallbacks'', ''partner''] ?h1
              = Inl RangeError"
    using holdsPair_branch_base [OF l1(1) Suc.prems(2)]
          holdsPair_branch_base [OF h2(2) Suc.prems(2)]
          holdsPair_branch_base [OF h3(2) Suc.prems(2)]
          holdsPair_branch_base [OF h4(2) Suc.prems(2)]
          h2(1) h3(1) h4(1) nested
    by simp
  show ?case
    using holdsPair_lookup [OF Suc.prems] keys
    by (simp add: partnerObj_def baseProps_def plainRuntime_def)
qed

lemma cloneKeys_append:
  "cloneKeys R depth memo this ret (xs @ ys) h =
     (case cloneKeys R depth memo this ret xs h of
        Inl e \<Rightarrow> Inl e
      | Inr h' \<Rightarrow> cloneKeys R depth memo this ret ys h')"
  by (induction xs arbitrary: h)
     (auto split: sum.splits branch.splits option.splits prod.splits)

text \<open>
  Without a cycle the deep clone works as described: the clone of an instance whose
  \<open>partner\<close> is a leaf gets a new reference (2), and its \<open>partner\<close> is a new instance (3),
  equal in content to the original leaf (1).
\<close>

lemma clone_nested_acyclic:
  "clone plainRuntime (Suc (Suc 0)) [partnerObj 1, leafObj] 0 True None =
     Inr (2, [partnerObj 1, leafObj, partnerObj 3, leafObj])"
  by (simp add: clone_def fieldBranch_def tableOf_def lookupObj_def partnerObj_def leafObj_def
        baseProps_def getProp_def assign_def plainRuntime_def objectPrototype_def)

text \<open>
  C8: the claim is that \<open>clone(true)\<close> terminates on a reference cycle because the visited
  map lets each object be cloned at most once. The code reads the map (\<open>memo.has\<close>,
  \<open>memo.get\<close>) and never writes it, so the map stays empty: on two instances that refer to
  each other, the deep clone of one clones the other, which clones the first again, and so
  on. Whatever room the call stack has, the call ends in a stack overflow.
\<close>

theorem clone_cycle_overflows:
  "clone plainRuntime depth cyclicPair 0 True None = Inl RangeError"
proof -
  have "holdsPair cyclicPair"
    by (simp add: holdsPair_def cyclicPair_def)
  then show ?thesis
    by (simp add: clone_def cyclic_overflow)
qed

text \<open>
  A field named like a method of \<open>Object.prototype\<close> takes the callback branch, since
  \<open>key in this._cloneCallbacks\<close> finds the inherited name: the method is called as a clone
  callback and the field is not assigned, so an assignment that would throw is never made.
\<close>

lemma clone_inherited_name:
  "fieldBranch valueOfRuntime [fieldObj ''valueOf'', \<lparr>klass = 0, props = baseProps\<rparr>] 0 ''valueOf''
     = Inr (Callback (Function 0))"
  "clone valueOfRuntime (Suc 0) [fieldObj ''valueOf''] 0 True None =
     Inr (1, [fieldObj ''valueOf'', \<lparr>klass = 0, props = baseProps @ [(''n'', Data (Number 2))]\<rparr>])"
  by (simp_all add: clone_def fieldBranch_def tableOf_def lookupObj_def fieldObj_def baseProps_def
        getProp_def assign_def valueOfRuntime_def objectPrototype_def runCallback_def)

text \<open>
  C9, as stated: an error raised while a field is copied is swallowed if and only if it is
  a TypeError. A field that \<open>_cloneCallbacks\<close> maps to \<open>true\<close> is copied by reference outside
  the \<open>try\<close>: when that assignment throws a TypeError, the clone fails with it.
\<close>

theorem clone_error_swallowed_counterexample:
  "fieldBranch lockingRuntime [byRefObj, \<lparr>klass = 0, props = take 3 (props byRefObj)\<rparr>] 0 ''locked''
     = Inr (Callback (Boolean True))
   \<and> assign lockingRuntime [byRefObj, \<lparr>klass = 0, props = take 3 (props byRefObj)\<rparr>] 1 ''locked'' (Number 1)
       = Inl TypeError
   \<and> clone lockingRuntime (Suc 0) [byRefObj] 0 True None = Inl TypeError"
  by (simp add: clone_def fieldBranch_def tableOf_def lookupObj_def byRefObj_def baseProps_def
        getProp_def assign_def lockingRuntime_def objectPrototype_def runCallback_def
        thisValue_def)

text \<open>
  C9, amended: in a deep clone, an error raised while a field is copied is swallowed, and
  the clone goes on with the next field, if and only if it is a TypeError raised by the
  default value copy (the assignment inside the \<open>try\<close>, reached by a field that has no
  entry in \<open>_cloneCallbacks\<close> and is no accessor, function or nested ProtoM21Object). Every
  other error raised during field copy is the result of \<open>clone\<close>: any other error of the
  default copy, and any error, a TypeError included, of a clone callback (a copy by
  reference, an omission, a custom function), of the nested clone, of the assignment of
  the nested clone's result, and of the look-up in \<open>_cloneCallbacks\<close>.
\<close>

theorem clone_field_copy_errors:
  assumes "lookupObj h0 this = Some obj"
    and "construct R (klass obj) h0 = (ret, h1)"
    and "map fst (props obj) = pre @ key # post"
    and "cloneKeys R depth memo this ret pre h1 = Inr h"
  shows "(fieldBranch R h this key = Inr (Default v) \<and> assign R h ret key v = Inl e \<longrightarrow>
            clone R (Suc depth) h0 this True (Some memo) =
              (if e = TypeError
               then (case cloneKeys R depth memo this ret post h of
                       Inl e' \<Rightarrow> Inl e'
                     | Inr h2 \<Rightarrow> Inr (ret, h2))
               else Inl e))
       \<and> (fieldBranch R h this key = Inr (Callback cb) \<and> runCallback R cb h this ret key = Inl e \<longrightarrow>
            clone R (Suc depth) h0 this True (Some memo) = Inl e)
       \<and> (fieldBranch R h this key = Inr (Nested m) \<and> map_of memo m = None
            \<and> cloneDeep R depth memo h m = Inl e \<longrightarrow>
            clone R (Suc depth) h0 this True (Some memo) = Inl e)
       \<and> (fieldBranch R h this key = Inr (Nested m)
            \<and> (map_of memo m = Some cv \<and> h' = h
                \<or> map_of memo m = None \<and> cloneDeep R depth memo h m = Inr (c, h') \<and> cv = M21 c)
            \<and> assign R h' ret key cv = Inl e \<longrightarrow>
            clone R (Suc depth) h0 this True (Some memo) = Inl e)
       \<and> (fieldBranch R h this key = Inl e \<longrightarrow>
            clone R (Suc depth) h0 this True (Some memo) = Inl e)"
  using assms by (auto simp: clone_def cloneKeys_append)

theorem clone_field_copy_errors_witness:
  "clone lockingRuntime (Suc 0) [fieldObj ''locked''] 0 True (Some []) =
     Inr (1, [fieldObj ''locked'', \<lparr>klass = 0, props = baseProps @ [(''n'', Data (Number 2))]\<rparr>])
   \<and> clone lockingRuntime (Suc 0) [fieldObj ''broken''] 0 True (Some []) =
     Inl (Thrown ''setter failed'')
   \<and> clone lockingRuntime (Suc 0) [byRefObj] 0 True (Some []) = Inl TypeError
   \<and> clone plainRuntime (Suc 0) [partnerObj 1, leafObj] 0 True (Some []) = Inl RangeError
   \<and> clone lockingRuntime (Suc (Suc 0)) [lockedNestedObj, leafObj] 0 True (Some []) = Inl TypeError
   \<and> clone lockingRuntime (Suc 0) [nullTableObj] 0 True (Some []) = Inl TypeError"
proof -
  let ?pre = "[''isProtoM21Object'', ''isMusic21Object'', ''_cloneCallbacks'']"
  let ?fresh = "\<lparr>klass = 0, props = baseProps\<rparr>"
  note defs = fieldBranch_def tableOf_def lookupObj_def fieldObj_def baseProps_def getProp_def
    assign_def lockingRuntime_def plainRuntime_def objectPrototype_def
  have a1: "lookupObj [fieldObj k] 0 = Some (fieldObj k)" for k
    by (simp add: lookupObj_def)
  have a2: "construct lockingRuntime (klass (fieldObj k)) [fieldObj k] = (1, [fieldObj k, ?fresh])" for k
    by (simp add: lockingRuntime_def fieldObj_def)
  have a3: "map fst (props (fieldObj k)) = ?pre @ k # [''n'']" for k
    by (simp add: fieldObj_def baseProps_def)
  have a4: "cloneKeys lockingRuntime 0 [] 0 1 ?pre [fieldObj ''locked'', ?fresh]
              = Inr [fieldObj ''locked'', ?fresh]"
    by (simp add: defs)
  have a4': "cloneKeys lockingRuntime 0 [] 0 1 ?pre [fieldObj ''broken'', ?fresh]
              = Inr [fieldObj ''broken'', ?fresh]"
    by (simp add: defs)
  have a5: "fieldBranch lockingRuntime [fieldObj ''locked'', ?fresh] 0 ''locked''
              = Inr (Default (Number 1))"
    by (simp add: defs)
  have a5': "fieldBranch lockingRuntime [fieldObj ''broken'', ?fresh] 0 ''broken''
              = Inr (Default (Number 1))"
    by (simp add: defs)
  have a6: "assign lockingRuntime [fieldObj ''locked'', ?fresh] 1 ''locked'' (Number 1) = Inl TypeError"
       "assign lockingRuntime [fieldObj ''broken'', ?fresh] 1 ''broken'' (Number 1)
          = Inl (Thrown ''setter failed'')"
    by (simp_all add: assign_def lookupObj_def lockingRuntime_def)
  have rest: "cloneKeys lockingRuntime 0 [] 0 1 [''n''] [fieldObj ''locked'', ?fresh] =
      Inr [fieldObj ''locked'', \<lparr>klass = 0, props = baseProps @ [(''n'', Data (Number 2))]\<rparr>]"
    by (simp add: defs)
  have swallowed: "clone lockingRuntime (Suc 0) [fieldObj ''locked''] 0 True (Some []) =
     Inr (1, [fieldObj ''locked'', \<lparr>klass = 0, props = baseProps @ [(''n'', Data (Number 2))]\<rparr>])"
    using clone_field_copy_errors [OF a1 a2 a3 a4, where v = "Number 1" and e = TypeError] a5 a6(1) rest
    by simp
  have other: "clone lockingRuntime (Suc 0) [fieldObj ''broken''] 0 True (Some []) =
     Inl (Thrown ''setter failed'')"
    using clone_field_copy_errors [OF a1 a2 a3 a4', where v = "Number 1"
            and e = "Thrown ''setter failed''"]
          a5' a6(2)
    by simp
  let ?copy = "\<lparr>klass = 0, props = take 3 (props byRefObj)\<rparr>"
  have b1: "lookupObj [byRefObj] 0 = Some byRefObj"
    by (simp add: lookupObj_def)
  have b2: "construct lockingRuntime (klass byRefObj) [byRefObj] = (1, [byRefObj, ?fresh])"
    by (simp add: lockingRuntime_def byRefObj_def)
  have b3: "map fst (props byRefObj) = ?pre @ ''locked'' # []"
    by (simp add: byRefObj_def)
  have b4: "cloneKeys lockingRuntime 0 [] 0 1 ?pre [byRefObj, ?fresh] = Inr [byRefObj, ?copy]"
    by (simp add: defs byRefObj_def)
  have b5: "fieldBranch lockingRuntime [byRefObj, ?copy] 0 ''locked'' = Inr (Callback (Boolean True))"
    by (simp add: defs byRefObj_def)
  have b6: "runCallback lockingRuntime (Boolean True) [byRefObj, ?copy] 0 1 ''locked'' = Inl TypeError"
    by (simp add: runCallback_def assign_def lookupObj_def lockingRuntime_def)
  have byRef: "clone lockingRuntime (Suc 0) [byRefObj] 0 True (Some []) = Inl TypeError"
    using clone_field_copy_errors [OF b1 b2 b3 b4, where cb = "Boolean True" and e = TypeError] b5 b6
    by simp
  let ?h = "[partnerObj 1, leafObj]"
  have c1: "lookupObj ?h 0 = Some (partnerObj 1)"
    by (simp add: lookupObj_def)
  have c2: "construct plainRuntime (klass (partnerObj 1)) ?h = (2, ?h @ [?fresh])"
    by (simp add: plainRuntime_def partnerObj_def)
  have c3: "map fst (props (partnerObj 1)) = ?pre @ ''partner'' # []"
    by (simp add: partnerObj_def baseProps_def)
  have c4: "cloneKeys plainRuntime 0 [] 0 2 ?pre (?h @ [?fresh]) = Inr (?h @ [?fresh])"
    by (simp add: defs partnerObj_def leafObj_def)
  have c5: "fieldBranch plainRuntime (?h @ [?fresh]) 0 ''partner'' = Inr (Nested 1)"
    by (simp add: defs partnerObj_def leafObj_def)
  have c6: "map_of ([] :: (nat \<times> val) list) 1 = None"
       "cloneDeep plainRuntime 0 [] (?h @ [?fresh]) 1 = Inl RangeError"
    by simp_all
  have nested: "clone plainRuntime (Suc 0) ?h 0 True (Some []) = Inl RangeError"
    using clone_field_copy_errors [OF c1 c2 c3 c4, where m = 1 and e = RangeError] c5 c6
    by simp
  let ?g = "[lockedNestedObj, leafObj]"
  have d1: "lookupObj ?g 0 = Some lockedNestedObj"
    by (simp add: lookupObj_def)
  have d2: "construct lockingRuntime (klass lockedNestedObj) ?g = (2, ?g @ [?fresh])"
    by (simp add: lockingRuntime_def lockedNestedObj_def)
  have d3: "map fst (props lockedNestedObj) = ?pre @ ''locked'' # []"
    by (simp add: lockedNestedObj_def baseProps_def)
  have d4: "cloneKeys lockingRuntime (Suc 0) [] 0 2 ?pre (?g @ [?fresh]) = Inr (?g @ [?fresh])"
    by (simp add: defs lockedNestedObj_def leafObj_def)
  have d5: "fieldBranch lockingRuntime (?g @ [?fresh]) 0 ''locked'' = Inr (Nested 1)"
    by (simp add: defs lockedNestedObj_def leafObj_def)
  have d6: "map_of ([] :: (nat \<times> val) list) 1 = None"
       "cloneDeep lockingRuntime (Suc 0) [] (?g @ [?fresh]) 1 = Inr (3, ?g @ [?fresh, leafObj])"
    by (simp_all add: defs lockedNestedObj_def leafObj_def)
  have d7: "assign lockingRuntime (?g @ [?fresh, leafObj]) 2 ''locked'' (M21 3) = Inl TypeError"
    by (simp add: assign_def lookupObj_def lockingRuntime_def)
  have assigned: "clone lockingRuntime (Suc (Suc 0)) ?g 0 True (Some []) = Inl TypeError"
    using clone_field_copy_errors [OF d1 d2 d3 d4, where m = 1 and c = 3 and cv = "M21 3"
            and h' = "?g @ [?fresh, leafObj]" and e = TypeError] d5 d6 d7
    by simp
  have e1: "lookupObj [nullTableObj] 0 = Some nullTableObj"
    by (simp add: lookupObj_def)
  have e2: "construct lockingRuntime (klass nullTableObj) [nullTableObj] = (1, [nullTableObj, ?fresh])"
    by (simp add: lockingRuntime_def nullTableObj_def)
  have e3: "map fst (props nullTableObj) = [] @ ''_cloneCallbacks'' # []"
    by (simp add: nullTableObj_def)
  have e4: "cloneKeys lockingRuntime 0 [] 0 1 [] [nullTableObj, ?fresh] = Inr [nullTableObj, ?fresh]"
    by simp
  have e5: "fieldBranch lockingRuntime [nullTableObj, ?fresh] 0 ''_cloneCallbacks'' = Inl TypeError"
    by (simp add: fieldBranch_def tableOf_def lookupObj_def nullTableObj_def getProp_def)
  have table: "clone lockingRuntime (Suc 0) [nullTableObj] 0 True (Some []) = Inl TypeError"
    using clone_field_copy_errors [OF e1 e2 e3 e4, where e = TypeError] e5
    by simp
  from swallowed other byRef nested assigned table show ?thesis by blast
qed

end
